theory Spec2Isabelle
  imports Complex_Main
begin

section \<open>Cells, strings and data frames\<close>

text \<open>
  A cell of a pandas frame read from a CSV file is a missing value (NaN), a string or a
  number. Numbers are exact rationals here: the rounding of floating point is not modelled.
  Characters are bytes; the case and white-space predicates are those of Python on ASCII,
  and every byte outside ASCII counts as uncased and not white space.
\<close>

datatype cell = Null | Str string | Num rat

record dataframe =
  columns :: "string list"
  rows :: "cell list list"

definition is_space :: "char \<Rightarrow> bool" where
  "is_space c = (let n = (of_char c :: nat) in (9 \<le> n \<and> n \<le> 13) \<or> (28 \<le> n \<and> n \<le> 32))"

definition is_digit :: "char \<Rightarrow> bool" where
  "is_digit c = (let n = (of_char c :: nat) in 48 \<le> n \<and> n \<le> 57)"

definition is_upper :: "char \<Rightarrow> bool" where
  "is_upper c = (let n = (of_char c :: nat) in 65 \<le> n \<and> n \<le> 90)"

definition is_lower :: "char \<Rightarrow> bool" where
  "is_lower c = (let n = (of_char c :: nat) in 97 \<le> n \<and> n \<le> 122)"

definition to_upper :: "char \<Rightarrow> char" where
  "to_upper c = (if is_lower c then char_of ((of_char c :: nat) - 32) else c)"

definition to_lower :: "char \<Rightarrow> char" where
  "to_lower c = (if is_upper c then char_of ((of_char c :: nat) + 32) else c)"

text \<open>\<^verbatim>\<open>str.strip()\<close>: white space is removed at both ends.\<close>

definition strip :: "string \<Rightarrow> string" where
  "strip s = rev (dropWhile is_space (rev (dropWhile is_space s)))"

text \<open>\<^verbatim>\<open>str.lower()\<close>.\<close>

definition lower :: "string \<Rightarrow> string" where
  "lower s = map to_lower s"

text \<open>
  \<^verbatim>\<open>str.title()\<close>: a cased character that follows an uncased one (or starts the string)
  is upper-cased, a cased character that follows a cased one is lower-cased. The flag says
  whether the previous character was cased.
\<close>

fun title_aux :: "bool \<Rightarrow> string \<Rightarrow> string" where
  "title_aux prev [] = []"
| "title_aux prev (c # cs) =
     (if is_lower c then (if prev then c else to_upper c) # title_aux True cs
      else if is_upper c then (if prev then to_lower c else c) # title_aux True cs
      else c # title_aux False cs)"

definition title :: "string \<Rightarrow> string" where
  "title s = title_aux False s"

text \<open>
  \<^verbatim>\<open>str(x)\<close> and \<^verbatim>\<open>astype(str)\<close>: a missing value prints as \<^verbatim>\<open>nan\<close>. How a number
  prints depends on the column's type (\<^verbatim>\<open>5\<close> or \<^verbatim>\<open>5.0\<close>), so the printer of numbers
  is a parameter.
\<close>

definition py_str :: "(rat \<Rightarrow> string) \<Rightarrow> cell \<Rightarrow> string" where
  "py_str nstr x = (case x of Null \<Rightarrow> ''nan'' | Str s \<Rightarrow> s | Num r \<Rightarrow> nstr r)"

subsection \<open>Columns of a frame\<close>

text \<open>A row is aligned with the column names; a column is addressed by its first occurrence.\<close>

fun get_cell :: "string \<Rightarrow> string list \<Rightarrow> cell list \<Rightarrow> cell option" where
  "get_cell c (k # ks) (v # vs) = (if k = c then Some v else get_cell c ks vs)"
| "get_cell c _ _ = None"

fun update_cell :: "string \<Rightarrow> (cell \<Rightarrow> cell) \<Rightarrow> string list \<Rightarrow> cell list \<Rightarrow> cell list" where
  "update_cell c f (k # ks) (v # vs) = (if k = c then f v # vs else v # update_cell c f ks vs)"
| "update_cell c f _ vs = vs"

fun drop_cell :: "string \<Rightarrow> string list \<Rightarrow> cell list \<Rightarrow> cell list" where
  "drop_cell c (k # ks) (v # vs) = (if k = c then drop_cell c ks vs else v # drop_cell c ks vs)"
| "drop_cell c _ vs = vs"

text \<open>\<^verbatim>\<open>df[c]\<close> as the list of its values, top to bottom.\<close>

definition column :: "string \<Rightarrow> dataframe \<Rightarrow> cell list" where
  "column c df = List.map_filter (get_cell c (columns df)) (rows df)"

text \<open>\<^verbatim>\<open>df[c] = df[c].apply(f)\<close>, guarded by \<^verbatim>\<open>if c in df.columns\<close>.\<close>

definition apply_col :: "string \<Rightarrow> (cell \<Rightarrow> cell) \<Rightarrow> dataframe \<Rightarrow> dataframe" where
  "apply_col c f df =
     (if c \<in> set (columns df)
      then df\<lparr>rows := map (update_cell c f (columns df)) (rows df)\<rparr>
      else df)"

text \<open>
  \<^verbatim>\<open>df.drop(columns=[c])\<close>, guarded by \<^verbatim>\<open>if c in df.columns\<close>: every column with
  that label goes.
\<close>

definition drop_column :: "string \<Rightarrow> dataframe \<Rightarrow> dataframe" where
  "drop_column c df =
     (if c \<in> set (columns df)
      then \<lparr>columns = removeAll c (columns df), rows = map (drop_cell c (columns df)) (rows df)\<rparr>
      else df)"

text \<open>
  \<^verbatim>\<open>df.drop_duplicates(keep='first')\<close>: a row equal to an earlier one is dropped, the
  others keep their order. Missing values compare equal to each other there.
\<close>

fun drop_dups :: "'a list \<Rightarrow> 'a list \<Rightarrow> 'a list" where
  "drop_dups seen [] = []"
| "drop_dups seen (x # xs) =
     (if x \<in> set seen then drop_dups seen xs else x # drop_dups (x # seen) xs)"

definition drop_duplicates :: "dataframe \<Rightarrow> dataframe" where
  "drop_duplicates df = df\<lparr>rows := drop_dups [] (rows df)\<rparr>"

text \<open>The frames the program handles: every row has one cell per column, and no column name repeats.\<close>

definition wf_frame :: "dataframe \<Rightarrow> bool" where
  "wf_frame df = (distinct (columns df) \<and> list_all (\<lambda>r. length r = length (columns df)) (rows df))"

section \<open>The correction stage\<close>

subsection \<open>Vocabularies\<close>

definition CANONICAL_COUNTRIES :: "string list" where
  "CANONICAL_COUNTRIES = [
    ''United States'', ''India'', ''Canada'', ''United Kingdom'', ''Australia'', ''Germany'',
    ''France'', ''Japan'', ''China'', ''Brazil'', ''South Korea'', ''Italy'', ''Spain'',
    ''Mexico'', ''Russia'', ''Netherlands'', ''Sweden'', ''Norway'', ''Denmark'', ''Finland'',
    ''Switzerland'', ''Austria'', ''Belgium'', ''Ireland'', ''New Zealand'', ''Singapore'',
    ''Malaysia'', ''Thailand'', ''Indonesia'', ''Turkey'', ''Saudi Arabia'', ''UAE'',
    ''South Africa'', ''Egypt'', ''Argentina'', ''Chile'', ''Colombia'', ''Peru'', ''Poland'',
    ''Portugal'', ''Greece'', ''Czech Republic'', ''Hungary'', ''Romania'', ''Slovakia'',
    ''Slovenia'', ''Croatia'', ''Estonia'', ''Latvia'', ''Lithuania'', ''Philippines'',
    ''Vietnam'', ''Pakistan'', ''Bangladesh'', ''Sri Lanka'', ''Nepal'', ''Israel'',
    ''Qatar'', ''Kuwait'', ''Oman'', ''Morocco'', ''Kenya'', ''Nigeria'', ''Ghana'',
    ''Venezuela'', ''Ecuador'', ''Uruguay'', ''Paraguay'', ''Bolivia'', ''Costa Rica'',
    ''Panama'', ''Guatemala'', ''Honduras'', ''El Salvador'', ''Dominican Republic'',
    ''Cuba'', ''Jamaica'', ''Trinidad and Tobago'', ''Iceland'', ''Luxembourg'',
    ''Liechtenstein'', ''Monaco'', ''Andorra'', ''San Marino'', ''Malta'', ''Cyprus'',
    ''Bahrain'', ''Jordan'', ''Lebanon'', ''Syria'', ''Iraq'', ''Iran'', ''Afghanistan'',
    ''Uzbekistan'', ''Kazakhstan'', ''Azerbaijan'', ''Georgia'', ''Armenia'', ''Mongolia'',
    ''Cambodia'', ''Laos'', ''Myanmar'', ''Brunei'', ''Timor-Leste'']"

definition CANONICAL_CITIES :: "string list" where
  "CANONICAL_CITIES = [
    ''Springfield'', ''Seattle'', ''Miami Beach'', ''San Francisco'', ''Bludhaven'',
    ''Hub City'', ''Metropolis'', ''Opal City'', ''Gateway City'', ''Houston'',
    ''Central City'', ''Bellevue'', ''Riverside'', ''New York'', ''Gotham'', ''Coast City'',
    ''Los Angeles'', ''Star City'', ''Miami'', ''National City'', ''Mumbai'', ''Newark'',
    ''Dallas'', ''Unknown'']"

definition GENDERS :: "string list" where
  "GENDERS = [''Male'', ''Female'', ''Other'']"

definition MARITAL_STATUSES :: "string list" where
  "MARITAL_STATUSES = [''Single'', ''Married'', ''Divorced'', ''Widowed'']"

subsection \<open>The fuzzy matcher\<close>

text \<open>
  \<^verbatim>\<open>process.extractOne(q, choices, scorer=fuzz.token_sort_ratio)\<close> scores every choice
  and returns the first one with the highest score, or nothing when there is no choice.
  The scorer belongs to the rapidfuzz library and is a parameter.
\<close>

type_synonym scorer = "string \<Rightarrow> string \<Rightarrow> rat"

fun best_of :: "scorer \<Rightarrow> string \<Rightarrow> string \<times> rat \<Rightarrow> string list \<Rightarrow> string \<times> rat" where
  "best_of sc q b [] = b"
| "best_of sc q b (c # cs) = best_of sc q (if snd b < sc q c then (c, sc q c) else b) cs"

definition extractOne :: "scorer \<Rightarrow> string \<Rightarrow> string list \<Rightarrow> (string \<times> rat) option" where
  "extractOne sc q choices =
     (case choices of [] \<Rightarrow> None | c # cs \<Rightarrow> Some (best_of sc q (c, sc q c) cs))"

text \<open>
  \<^verbatim>\<open>match_country\<close> and \<^verbatim>\<open>match_city\<close> differ in the vocabulary and the threshold
  only. Unpacking an empty answer of \<^verbatim>\<open>extractOne\<close> would raise; both vocabularies are
  non-empty constants, so that branch is never taken.
\<close>

definition fuzzy_match :: "(rat \<Rightarrow> string) \<Rightarrow> scorer \<Rightarrow> string list \<Rightarrow> rat \<Rightarrow> cell \<Rightarrow> cell" where
  "fuzzy_match nstr sc vocab threshold val =
     (let val_clean = title (strip (py_str nstr val)) in
      if val = Null \<or> val_clean = [] \<or> val_clean = ''Unknown'' then Str ''Unknown''
      else if val_clean \<in> set vocab then Str val_clean
      else (case extractOne sc val_clean vocab of
              None \<Rightarrow> Null
            | Some (m, score) \<Rightarrow> if score > threshold then Str m else Str ''Unknown''))"

definition match_country :: "(rat \<Rightarrow> string) \<Rightarrow> scorer \<Rightarrow> cell \<Rightarrow> cell" where
  "match_country nstr sc val = fuzzy_match nstr sc CANONICAL_COUNTRIES 70 val"

definition match_city :: "(rat \<Rightarrow> string) \<Rightarrow> scorer \<Rightarrow> cell \<Rightarrow> cell" where
  "match_city nstr sc val = fuzzy_match nstr sc CANONICAL_CITIES 40 val"

subsection \<open>The rules of the columns\<close>

text \<open>Names: \<^verbatim>\<open>astype(str).str.title().str.strip()\<close>, then the replacement of the empty forms.\<close>

definition fix_name :: "(rat \<Rightarrow> string) \<Rightarrow> cell \<Rightarrow> cell" where
  "fix_name nstr x =
     (let s = strip (title (py_str nstr x)) in
      if s \<in> set [''Nan'', ''nan'', ''''] then Str ''Unknown'' else Str s)"

text \<open>
  The median of pandas: the middle value of the sorted values, the mean of the two middle
  values when their number is even, NaN when there is none.
\<close>

definition median :: "rat list \<Rightarrow> rat option" where
  "median xs =
     (let s = sort xs; n = length s in
      if n = 0 then None
      else if odd n then Some (s ! (n div 2))
      else Some ((s ! (n div 2 - 1) + s ! (n div 2)) / 2))"

text \<open>The filter of the median: \<^verbatim>\<open>isinstance(x, (int, float)) and 0 < x < 120\<close>.\<close>

definition median_candidate :: "cell \<Rightarrow> bool" where
  "median_candidate x = (case x of Num r \<Rightarrow> 0 < r \<and> r < 120 | _ \<Rightarrow> False)"

definition num_values :: "cell list \<Rightarrow> rat list" where
  "num_values vs = concat (map (\<lambda>x. case x of Num r \<Rightarrow> [r] | _ \<Rightarrow> []) vs)"

definition median_age :: "cell list \<Rightarrow> cell" where
  "median_age vs =
     (case median (num_values (filter median_candidate vs)) of None \<Rightarrow> Null | Some m \<Rightarrow> Num m)"

definition fix_age :: "cell \<Rightarrow> cell \<Rightarrow> cell" where
  "fix_age m x = (case x of Num r \<Rightarrow> if r \<le> 0 \<or> r > 120 then m else x | _ \<Rightarrow> m)"

definition fix_loyalty :: "cell \<Rightarrow> cell" where
  "fix_loyalty x = (case x of Num r \<Rightarrow> if r < 0 then Num 0 else x | _ \<Rightarrow> Num 0)"

definition fix_gender :: "cell \<Rightarrow> cell" where
  "fix_gender x = (if x \<in> set (map Str GENDERS) then x else Str ''Other'')"

definition fix_marital :: "cell \<Rightarrow> cell" where
  "fix_marital x = (if x \<in> set (map Str MARITAL_STATUSES) then x else Str ''Single'')"

text \<open>
  Phone: the digits of the printed value, padded on the left with \<^verbatim>\<open>0\<close> to width 8
  (\<^verbatim>\<open>str.pad(8, fillchar='0')\<close>), then \<^verbatim>\<open>x[-8:-4]\<close>, a hyphen and \<^verbatim>\<open>x[-4:]\<close> when the
  padded string has at least 8 characters, the sentinel otherwise.
\<close>

definition pad8 :: "string \<Rightarrow> string" where
  "pad8 s = replicate (8 - length s) CHR ''0'' @ s"

definition fix_phone :: "(rat \<Rightarrow> string) \<Rightarrow> cell \<Rightarrow> cell" where
  "fix_phone nstr x =
     (let p = pad8 (filter is_digit (py_str nstr x)) in
      if length p \<ge> 8
      then Str (take 4 (drop (length p - 8) p) @ ''-'' @ drop (length p - 4) p)
      else Str ''0000-0000'')"

subsection \<open>\<^verbatim>\<open>correct_issues\<close>\<close>

text \<open>
  The steps in the order of the source: the three name columns, the removal of duplicate
  rows, country, age, loyalty points, gender, marital status, phone, city, and the removal
  of the issues column. The log of changed cells that the source returns beside the frame
  is not modelled.
\<close>

definition fix_names :: "(rat \<Rightarrow> string) \<Rightarrow> dataframe \<Rightarrow> dataframe" where
  "fix_names nstr df =
     fold (\<lambda>c. apply_col c (fix_name nstr)) [''first_name'', ''last_name'', ''full_name''] df"

definition fix_ages :: "dataframe \<Rightarrow> dataframe" where
  "fix_ages df = apply_col ''age'' (fix_age (median_age (column ''age'' df))) df"

definition correct_issues :: "(rat \<Rightarrow> string) \<Rightarrow> scorer \<Rightarrow> dataframe \<Rightarrow> dataframe" where
  "correct_issues nstr sc df =
     (let df = fix_names nstr df;
          df = drop_duplicates df;
          df = apply_col ''country'' (match_country nstr sc) df;
          df = fix_ages df;
          df = apply_col ''loyalty_points'' fix_loyalty df;
          df = apply_col ''gender'' fix_gender df;
          df = apply_col ''marital_status'' fix_marital df;
          df = apply_col ''phone'' (fix_phone nstr) df;
          df = apply_col ''city'' (match_city nstr sc) df
      in drop_column ''issues'' df)"

text \<open>
  \<^verbatim>\<open>df.duplicated(keep='first')\<close> marks the rows that \<^verbatim>\<open>drop_duplicates\<close> removes, and
  \<^verbatim>\<open>df[mask]\<close> keeps the rows where the mask holds.
\<close>

fun duplicated_first :: "'a list \<Rightarrow> 'a list \<Rightarrow> bool list" where
  "duplicated_first seen [] = []"
| "duplicated_first seen (x # xs) =
     (if x \<in> set seen then True # duplicated_first seen xs
      else False # duplicated_first (x # seen) xs)"

fun select_rows :: "bool list \<Rightarrow> 'a list \<Rightarrow> 'a list" where
  "select_rows (b # bs) (x # xs) = (if b then x # select_rows bs xs else select_rows bs xs)"
| "select_rows _ _ = []"

text \<open>The ranges that the canonical form asks of the numeric columns.\<close>

definition age_in_range :: "cell \<Rightarrow> bool" where
  "age_in_range x = (case x of Num r \<Rightarrow> 0 < r \<and> r \<le> 120 | _ \<Rightarrow> False)"

definition loyalty_in_range :: "cell \<Rightarrow> bool" where
  "loyalty_in_range x = (case x of Num r \<Rightarrow> 0 \<le> r | _ \<Rightarrow> False)"

subsection \<open>Concrete parameters for running examples\<close>

text \<open>
  The theorems below hold for every printer of numbers and every scorer. To run the stage on
  a concrete frame both have to be fixed: \<open>int_repr\<close> prints the integer part in decimal,
  as Python prints the values of an integer column, and \<open>exact_ratio\<close> scores 100 for equal
  strings and 0 otherwise.
\<close>

fun nat_digits :: "nat \<Rightarrow> string" where
  "nat_digits n =
     (if n < 10 then [char_of (48 + n)] else nat_digits (n div 10) @ [char_of (48 + n mod 10)])"

definition int_repr :: "rat \<Rightarrow> string" where
  "int_repr r = (if r < 0 then ''-'' @ nat_digits (nat (- \<lfloor>r\<rfloor>)) else nat_digits (nat \<lfloor>r\<rfloor>))"

definition exact_ratio :: scorer where
  "exact_ratio a b = (if a = b then 100 else 0)"

text \<open>A small frame with every column that the stage has a rule for.\<close>

definition example_frame :: dataframe where
  "example_frame =
     \<lparr>columns = [''first_name'', ''country'', ''city'', ''gender'', ''marital_status'',
                 ''loyalty_points'', ''age'', ''phone'', ''notes'', ''issues''],
      rows = [[Str ''ada  '', Str ''india'', Str ''seattle'', Str ''F'', Str ''married'',
               Num (- 3), Num (- 5), Str ''555 12 34'', Str ''a b'', Str ''Invalid Age''],
              [Null, Str ''India'', Str ''Miami'', Str ''Male'', Str ''Single'',
               Num 7, Num 30, Num 5551234, Null, Str '''']]\<rparr>"

text \<open>A frame of phone values in several shapes.\<close>

definition phone_frame :: dataframe where
  "phone_frame =
     \<lparr>columns = [''phone'', ''email''],
      rows = [[Str ''555 12 34'', Str ''a@b.co''], [Null, Str ''x''],
              [Str ''12-34'', Null], [Str ''+1 (206) 555-0199'', Str ''c@d.org'']]\<rparr>"

text \<open>Two rows that differ only in a gender that the stage normalises.\<close>

definition twin_frame :: dataframe where
  "twin_frame = \<lparr>columns = [''gender''], rows = [[Str ''F''], [Str ''Other'']]\<rparr>"

text \<open>Three contacts with a country, a phone and a gender.\<close>

definition contact_frame :: dataframe where
  "contact_frame =
     \<lparr>columns = [''country'', ''phone'', ''gender''],
      rows = [[Str ''india'', Str ''555 12 34'', Str ''F''],
              [Str ''Germany'', Str ''12-34'', Str ''Male''],
              [Str ''Atlantis'', Null, Str ''Other'']]\<rparr>"

section \<open>The detection stage\<close>

subsection \<open>Regular expressions\<close>

text \<open>
  The two patterns of the stage are matched by derivatives. \<^verbatim>\<open>Series.str.match\<close> anchors
  the pattern at the start of the string; both patterns end in \<^verbatim>\<open>$\<close>, which holds at the
  end of the string and before a single final newline.
\<close>

datatype rx = Zero | One | Sym "char \<Rightarrow> bool" | Seq rx rx | Alt rx rx | Star rx

fun nullable :: "rx \<Rightarrow> bool" where
  "nullable Zero = False"
| "nullable One = True"
| "nullable (Sym p) = False"
| "nullable (Seq r s) = (nullable r \<and> nullable s)"
| "nullable (Alt r s) = (nullable r \<or> nullable s)"
| "nullable (Star r) = True"

fun deriv :: "char \<Rightarrow> rx \<Rightarrow> rx" where
  "deriv c Zero = Zero"
| "deriv c One = Zero"
| "deriv c (Sym p) = (if p c then One else Zero)"
| "deriv c (Seq r s) =
     (if nullable r then Alt (Seq (deriv c r) s) (deriv c s) else Seq (deriv c r) s)"
| "deriv c (Alt r s) = Alt (deriv c r) (deriv c s)"
| "deriv c (Star r) = Seq (deriv c r) (Star r)"

fun matches :: "rx \<Rightarrow> string \<Rightarrow> bool" where
  "matches r [] = nullable r"
| "matches r (c # cs) = matches (deriv c r) cs"

definition str_match :: "rx \<Rightarrow> string \<Rightarrow> bool" where
  "str_match r s = (matches r s \<or> (s \<noteq> [] \<and> last s = CHR 0x0A \<and> matches r (butlast s)))"

definition Plus :: "rx \<Rightarrow> rx" where
  "Plus r = Seq r (Star r)"

text \<open>\<^verbatim>\<open>\w\<close> on ASCII: letters, digits and the underscore.\<close>

definition is_word :: "char \<Rightarrow> bool" where
  "is_word c = (is_lower c \<or> is_upper c \<or> is_digit c \<or> c = CHR ''_'')"

definition is_word_dot_dash :: "char \<Rightarrow> bool" where
  "is_word_dot_dash c = (is_word c \<or> c = CHR ''.'' \<or> c = CHR ''-'')"

text \<open>\<^verbatim>\<open>^[\w\.-]+@[\w\.-]+\.\w+$\<close>\<close>

definition EMAIL_REGEX :: rx where
  "EMAIL_REGEX =
     Seq (Plus (Sym is_word_dot_dash))
       (Seq (Sym (\<lambda>c. c = CHR ''@''))
         (Seq (Plus (Sym is_word_dot_dash))
           (Seq (Sym (\<lambda>c. c = CHR ''.'')) (Plus (Sym is_word)))))"

text \<open>\<^verbatim>\<open>^\d{3,4}-\d{4}$\<close>\<close>

definition PHONE_REGEX :: rx where
  "PHONE_REGEX =
     Seq (Sym is_digit) (Seq (Sym is_digit) (Seq (Sym is_digit) (Seq (Alt (Sym is_digit) One)
       (Seq (Sym (\<lambda>c. c = CHR ''-''))
         (Seq (Sym is_digit) (Seq (Sym is_digit) (Seq (Sym is_digit) (Sym is_digit))))))))"

subsection \<open>The rules\<close>

text \<open>Each rule is a predicate on the cell; its mask is the predicate along the column.\<close>

definition is_null :: "cell \<Rightarrow> bool" where
  "is_null x = (x = Null)"

definition email_issue :: "(rat \<Rightarrow> string) \<Rightarrow> cell \<Rightarrow> bool" where
  "email_issue nstr x =
     (\<not> str_match EMAIL_REGEX (py_str nstr x) \<or> (is_null x \<or> strip (py_str nstr x) = []))"

definition invalid_phone :: "(rat \<Rightarrow> string) \<Rightarrow> cell \<Rightarrow> bool" where
  "invalid_phone nstr x = (\<not> str_match PHONE_REGEX (py_str nstr x))"

definition invalid_gender :: "cell \<Rightarrow> bool" where
  "invalid_gender x = (x \<notin> set (map Str GENDERS))"

definition invalid_marital :: "cell \<Rightarrow> bool" where
  "invalid_marital x = (x \<notin> set (map Str MARITAL_STATUSES))"

definition invalid_age :: "cell \<Rightarrow> bool" where
  "invalid_age x = (case x of Null \<Rightarrow> True | Num r \<Rightarrow> r \<le> 0 \<or> r > 120 | Str _ \<Rightarrow> False)"

definition invalid_loyalty :: "cell \<Rightarrow> bool" where
  "invalid_loyalty x = (case x of Null \<Rightarrow> True | Num r \<Rightarrow> r < 0 | Str _ \<Rightarrow> False)"

definition non_canonical :: "cell \<Rightarrow> bool" where
  "non_canonical x = (x \<notin> set (map Str CANONICAL_COUNTRIES))"

definition empty_name :: "(rat \<Rightarrow> string) \<Rightarrow> cell \<Rightarrow> bool" where
  "empty_name nstr x =
     (is_null x \<or> strip (py_str nstr x) = [] \<or> lower (py_str nstr x) = ''nan'')"

text \<open>
  One entry of the list \<^verbatim>\<open>issues\<close>: the tag where the mask holds, the empty string
  elsewhere; no entry when the column is absent.
\<close>

definition issue_series :: "string \<Rightarrow> (cell \<Rightarrow> bool) \<Rightarrow> string \<Rightarrow> dataframe \<Rightarrow> string list list" where
  "issue_series c p tag df =
     (if c \<in> set (columns df) then [map (\<lambda>x. if p x then tag else []) (column c df)] else [])"

text \<open>\<^verbatim>\<open>df.duplicated(keep=False)\<close>: the row occurs more than once.\<close>

definition duplicate_mask :: "dataframe \<Rightarrow> bool list" where
  "duplicate_mask df = map (\<lambda>r. 1 < count_list (rows df) r) (rows df)"

definition all_issues :: "(rat \<Rightarrow> string) \<Rightarrow> dataframe \<Rightarrow> string list list" where
  "all_issues nstr df =
     issue_series ''email'' (email_issue nstr) ''Invalid Email'' df @
     issue_series ''phone'' (invalid_phone nstr) ''Invalid Phone'' df @
     issue_series ''gender'' invalid_gender ''Invalid Gender'' df @
     issue_series ''marital_status'' invalid_marital ''Invalid Marital Status'' df @
     issue_series ''age'' invalid_age ''Invalid Age'' df @
     issue_series ''loyalty_points'' invalid_loyalty ''Invalid Loyalty Points'' df @
     issue_series ''country'' non_canonical ''Non-canonical Country'' df @
     [map (\<lambda>x. if x then ''Duplicate'' else []) (duplicate_mask df)] @
     issue_series ''first_name'' (empty_name nstr) ''Empty first_name'' df @
     issue_series ''last_name'' (empty_name nstr) ''Empty last_name'' df @
     issue_series ''full_name'' (empty_name nstr) ''Empty full_name'' df"

text \<open>\<^verbatim>\<open>', '.join([str(issue) for issue in row if issue])\<close>\<close>

fun join_comma :: "string list \<Rightarrow> string" where
  "join_comma [] = []"
| "join_comma [t] = t"
| "join_comma (t # ts) = t @ '', '' @ join_comma ts"

definition combine_issues :: "string list \<Rightarrow> string" where
  "combine_issues row = join_comma (filter (\<lambda>issue. issue \<noteq> []) row)"

text \<open>
  \<^verbatim>\<open>df[c] = values\<close>: an existing column is overwritten where it stands, a new one is
  added on the right.
\<close>

definition set_column :: "string \<Rightarrow> cell list \<Rightarrow> dataframe \<Rightarrow> dataframe" where
  "set_column c vals df =
     (if c \<in> set (columns df)
      then df\<lparr>rows := map (\<lambda>(v, r). update_cell c (\<lambda>_. v) (columns df) r) (zip vals (rows df))\<rparr>
      else \<lparr>columns = columns df @ [c], rows = map (\<lambda>(v, r). r @ [v]) (zip vals (rows df))\<rparr>)"

text \<open>
  The issues of row \<open>i\<close> are the \<open>i\<close>-th entries of all series (\<^verbatim>\<open>pd.DataFrame(issues).T\<close>
  read row by row).
\<close>

definition issue_rows :: "string list list \<Rightarrow> nat \<Rightarrow> string list list" where
  "issue_rows issues n = map (\<lambda>i. map (\<lambda>s. s ! i) issues) [0..<n]"

text \<open>
  \<^verbatim>\<open>detect_issues\<close>. The list of series is never empty, since the duplicate rule always
  runs; the branch that drops a stale issues column is kept as the source has it. The log
  that the source returns beside the frame is not modelled.
\<close>

definition detect_issues :: "(rat \<Rightarrow> string) \<Rightarrow> dataframe \<Rightarrow> dataframe" where
  "detect_issues nstr df =
     (if all_issues nstr df \<noteq> []
      then set_column ''issues''
             (map (\<lambda>row. Str (combine_issues row))
                (issue_rows (all_issues nstr df) (length (rows df)))) df
      else if ''issues'' \<in> set (columns df) then drop_column ''issues'' df
      else df)"

section \<open>The enrichment stage\<close>

text \<open>
  What the stage calls outside the repository is a parameter: the text-generation service
  (\<open>None\<close> when the call raises), the CSV writer of pandas, the field count of one line by
  \<^verbatim>\<open>csv.reader\<close> and the CSV reader of pandas (\<open>None\<close> when they raise).
\<close>

record services =
  generate :: "string \<Rightarrow> string option"
  to_csv :: "dataframe \<Rightarrow> string"
  csv_fields :: "string \<Rightarrow> nat option"
  read_csv :: "string \<Rightarrow> dataframe option"

datatype log_entry =
    ColumnFilled string "(nat \<times> cell \<times> cell) list"
  | ColumnAdded string "(nat \<times> cell) list"
  | EnrichedAll
  | ParseError

text \<open>
  \<^verbatim>\<open>gemini_generate\<close>: the stripped answer of the service, or the text \<^verbatim>\<open>Unknown\<close> when
  the call raises.
\<close>

definition gemini_generate :: "services \<Rightarrow> string \<Rightarrow> string" where
  "gemini_generate sv prompt_text =
     (case generate sv prompt_text of Some response \<Rightarrow> strip response | None \<Rightarrow> ''Unknown'')"

text \<open>The frame sent to the service: every missing-like cell becomes \<^verbatim>\<open>MISSING\<close>.\<close>

definition mark_missing :: "cell \<Rightarrow> cell" where
  "mark_missing x =
     (if x = Null \<or> x \<in> set (map Str ['''', ''Unknown'', ''NaN'', ''nan'']) then Str ''MISSING''
      else (case x of Str s \<Rightarrow> if strip s = [] then Str ''MISSING'' else x | _ \<Rightarrow> x))"

definition df_for_gemini :: "dataframe \<Rightarrow> dataframe" where
  "df_for_gemini df = df\<lparr>rows := map (map mark_missing) (rows df)\<rparr>"

definition INSTRUCTIONS :: string where
  "INSTRUCTIONS =
     ''You are a data cleaning and enrichment agent. For the following CSV, fill in every 'MISSING' value in each row with a realistic, plausible value in the same format as the other values in that column. '' @
     ''If you cannot infer a value, generate a random plausible value in the same format as the rest of the column. '' @
     ''Additionally, for each row, generate two new columns: 'is_loyal_customer' (Yes/No, based on profile) and 'customer_persona' (max two lines, concise, describing their likely personality, values, and buying habits). '' @
     ''Return the result as a CSV with the same columns as input plus the two new columns, and no extra text. '' @
     ''IMPORTANT: Enclose every field in double quotes. Do NOT use commas inside any field (use semicolons or periods instead). Do not add extra header or footer text.'' @
     [CHR 0x0A, CHR 0x0A]"

definition prompt :: "services \<Rightarrow> dataframe \<Rightarrow> string" where
  "prompt sv df = INSTRUCTIONS @ to_csv sv (df_for_gemini df)"

text \<open>
  The substitution that removes code-fence markers: at the start of a line three backquotes
  and \<^verbatim>\<open>csv\<close> with the white space after them, and three backquotes at the end of a line.
  The flag says whether the position is at the start of a line.
\<close>

definition fence :: string where
  "fence = [CHR 0x60, CHR 0x60, CHR 0x60]"

function sub_fences :: "bool \<Rightarrow> string \<Rightarrow> string" where
  "sub_fences bol [] = []"
| "sub_fences bol (c # cs) =
     (if bol \<and> take 6 (c # cs) = fence @ ''csv''
      then sub_fences
             (takeWhile is_space (drop 6 (c # cs)) \<noteq> [] \<and>
              last (takeWhile is_space (drop 6 (c # cs))) = CHR 0x0A)
             (dropWhile is_space (drop 6 (c # cs)))
      else if take 3 (c # cs) = fence \<and> (drop 3 (c # cs) = [] \<or> hd (drop 3 (c # cs)) = CHR 0x0A)
      then sub_fences False (drop 3 (c # cs))
      else c # sub_fences (c = CHR 0x0A) cs)"
  by pat_completeness auto
termination
  by (relation "measure (\<lambda>(bol, s). length s)")
     (auto simp: less_Suc_eq_le intro: order_trans [OF length_dropWhile_le])

text \<open>\<^verbatim>\<open>str.splitlines()\<close> on ASCII line breaks; \<open>cur\<close> is the line read so far.\<close>

definition is_linebreak :: "char \<Rightarrow> bool" where
  "is_linebreak c = (let n = (of_char c :: nat) in (10 \<le> n \<and> n \<le> 13) \<or> (28 \<le> n \<and> n \<le> 30))"

fun splitlines_aux :: "string \<Rightarrow> string \<Rightarrow> string list" where
  "splitlines_aux cur [] = (if cur = [] then [] else [cur])"
| "splitlines_aux cur [c] = (if is_linebreak c then [cur] else [cur @ [c]])"
| "splitlines_aux cur (c # d # cs) =
     (if c = CHR 0x0D \<and> d = CHR 0x0A then
        (if cs = [] then [cur] else cur # splitlines_aux [] cs)
      else if is_linebreak c then cur # splitlines_aux [] (d # cs)
      else splitlines_aux (cur @ [c]) (d # cs))"

definition splitlines :: "string \<Rightarrow> string list" where
  "splitlines s = splitlines_aux [] s"

fun join_lines :: "string list \<Rightarrow> string" where
  "join_lines [] = []"
| "join_lines [l] = l"
| "join_lines (l # ls) = l @ [CHR 0x0A] @ join_lines ls"

text \<open>
  The defensive parse inside \<^verbatim>\<open>try\<close>: the header is the first line (none: IndexError),
  the lines with the header's field count are kept and read as a table. \<open>None\<close> is the
  \<^verbatim>\<open>except\<close> branch.
\<close>

definition parse_response :: "services \<Rightarrow> string \<Rightarrow> dataframe option" where
  "parse_response sv response =
     (case splitlines response of
        [] \<Rightarrow> None
      | header # _ \<Rightarrow>
          (case csv_fields sv header of
             None \<Rightarrow> None
           | Some num_fields \<Rightarrow>
               if list_ex (\<lambda>line. csv_fields sv line = None) (splitlines response) then None
               else read_csv sv
                      (join_lines (filter (\<lambda>line. csv_fields sv line = Some num_fields)
                                     (splitlines response)))))"

definition missing_like :: "(rat \<Rightarrow> string) \<Rightarrow> cell \<Rightarrow> bool" where
  "missing_like nstr x = (lower (strip (py_str nstr x)) \<in> set ['''', ''missing'', ''unknown'', ''nan''])"

definition filled_cells :: "(rat \<Rightarrow> string) \<Rightarrow> cell list \<Rightarrow> cell list \<Rightarrow> (nat \<times> cell \<times> cell) list" where
  "filled_cells nstr olds news =
     filter (\<lambda>(idx, old, new). missing_like nstr old \<and> \<not> missing_like nstr new)
       (zip [0..<min (length olds) (length news)] (zip olds news))"

definition enrich_logs :: "(rat \<Rightarrow> string) \<Rightarrow> dataframe \<Rightarrow> dataframe \<Rightarrow> log_entry list" where
  "enrich_logs nstr df enriched_df =
     concat (map (\<lambda>col.
        if col \<in> set (columns enriched_df) \<and>
           filled_cells nstr (column col df) (column col enriched_df) \<noteq> []
        then [ColumnFilled col (filled_cells nstr (column col df) (column col enriched_df))]
        else []) (columns df)) @
     concat (map (\<lambda>col.
        if col \<notin> set (columns df)
        then [ColumnAdded col (zip [0..<length (column col enriched_df)] (column col enriched_df))]
        else []) (columns enriched_df)) @
     [EnrichedAll]"

text \<open>\<^verbatim>\<open>df['issues'] = ''\<close>, guarded by \<^verbatim>\<open>if 'issues' in df.columns\<close>.\<close>

definition clear_issues :: "dataframe \<Rightarrow> dataframe" where
  "clear_issues df = apply_col ''issues'' (\<lambda>_. Str []) df"

text \<open>\<^verbatim>\<open>enrich_data\<close>: the frame and the log.\<close>

definition cleaned_response :: "services \<Rightarrow> dataframe \<Rightarrow> string" where
  "cleaned_response sv df = strip (sub_fences True (gemini_generate sv (prompt sv df)))"

definition enrich_data :: "(rat \<Rightarrow> string) \<Rightarrow> services \<Rightarrow> dataframe \<Rightarrow> dataframe \<times> log_entry list" where
  "enrich_data nstr sv df =
     (case parse_response sv (cleaned_response sv df) of
        Some enriched_df \<Rightarrow> (clear_issues enriched_df, enrich_logs nstr df enriched_df)
      | None \<Rightarrow> (clear_issues df, [ParseError]))"

section \<open>The orchestrator\<close>

text \<open>\<^verbatim>\<open>needs_correction\<close>: some cell of the issues column is not blank.\<close>

definition any_issue :: "(rat \<Rightarrow> string) \<Rightarrow> dataframe \<Rightarrow> bool" where
  "any_issue nstr df = list_ex (\<lambda>v. strip (py_str nstr v) \<noteq> []) (column ''issues'' df)"

definition needs_correction :: "(rat \<Rightarrow> string) \<Rightarrow> dataframe \<Rightarrow> bool" where
  "needs_correction nstr df = (if ''issues'' \<in> set (columns df) then any_issue nstr df else False)"

text \<open>
  \<^verbatim>\<open>needs_enrichment\<close>: some column other than the issues column holds a missing or
  missing-like cell.
\<close>

definition needs_enrichment :: "(rat \<Rightarrow> string) \<Rightarrow> dataframe \<Rightarrow> bool" where
  "needs_enrichment nstr df =
     list_ex (\<lambda>col. col \<noteq> ''issues'' \<and>
                (list_ex is_null (column col df) \<or>
                 list_ex (\<lambda>v. lower (strip (py_str nstr v)) \<in> set [''missing'', ''unknown'', ''nan'', ''''])
                   (column col df)))
       (columns df)"

text \<open>
  The run is recorded as the sequence of what the orchestrator does and logs: the calls of
  the three stages and the messages with which the loop stops.
\<close>

datatype event =
    Detection
  | Correction
  | Enrichment "log_entry list"
  | NoCorrectionNeeded
  | NoEnrichmentNeeded
  | AllResolved
  | MaximumReached

definition max_iterations :: nat where
  "max_iterations = 3"

text \<open>
  The \<^verbatim>\<open>while\<close> loop of \<^verbatim>\<open>main\<close>; \<open>iteration\<close> counts the passes already begun. The
  two \<^verbatim>\<open>break\<close>s return at once; the last pass detects once more and leaves the loop
  through its condition.
\<close>

function main_loop ::
  "(rat \<Rightarrow> string) \<Rightarrow> scorer \<Rightarrow> services \<Rightarrow> nat \<Rightarrow> dataframe \<Rightarrow> event list \<Rightarrow> dataframe \<times> event list"
where
  "main_loop nstr sc sv iteration df tr =
     (if iteration < max_iterations then
        (if needs_correction nstr (detect_issues nstr df) then
           (if needs_enrichment nstr (correct_issues nstr sc (detect_issues nstr df)) then
              (if Suc iteration = max_iterations then
                 main_loop nstr sc sv (Suc iteration)
                   (detect_issues nstr
                      (fst (enrich_data nstr sv (correct_issues nstr sc (detect_issues nstr df)))))
                   (tr @ [Detection, Correction,
                          Enrichment (snd (enrich_data nstr sv
                                             (correct_issues nstr sc (detect_issues nstr df)))),
                          Detection,
                          if any_issue nstr
                               (detect_issues nstr
                                  (fst (enrich_data nstr sv
                                          (correct_issues nstr sc (detect_issues nstr df)))))
                          then MaximumReached else AllResolved])
               else
                 main_loop nstr sc sv (Suc iteration)
                   (fst (enrich_data nstr sv (correct_issues nstr sc (detect_issues nstr df))))
                   (tr @ [Detection, Correction,
                          Enrichment (snd (enrich_data nstr sv
                                             (correct_issues nstr sc (detect_issues nstr df))))]))
            else (correct_issues nstr sc (detect_issues nstr df),
                  tr @ [Detection, Correction, NoEnrichmentNeeded]))
         else (detect_issues nstr df, tr @ [Detection, NoCorrectionNeeded]))
      else (df, tr))"
  by pat_completeness auto
termination
  by (relation "measure (\<lambda>(nstr, sc, sv, iteration, df, tr). max_iterations - iteration)") auto

text \<open>\<^verbatim>\<open>main\<close> after the input is read: the frame that is written and the record of the run.\<close>

definition main :: "(rat \<Rightarrow> string) \<Rightarrow> scorer \<Rightarrow> services \<Rightarrow> dataframe \<Rightarrow> dataframe \<times> event list" where
  "main nstr sc sv df = main_loop nstr sc sv 0 df []"

text \<open>The number of detection passes of a run.\<close>

definition detections :: "event list \<Rightarrow> nat" where
  "detections tr = length (filter (\<lambda>e. e = Detection) tr)"

text \<open>
  What the record of a finished run says about the issues column of the frame it writes:
  absent after the message that correction sufficed, present and blank after the message
  that no correction was needed.
\<close>

definition stop_ok :: "(rat \<Rightarrow> string) \<Rightarrow> dataframe \<times> event list \<Rightarrow> bool" where
  "stop_ok nstr r =
     ((NoEnrichmentNeeded \<in> set (snd r) \<longrightarrow> ''issues'' \<notin> set (columns (fst r))) \<and>
      (NoCorrectionNeeded \<in> set (snd r) \<longrightarrow>
         ''issues'' \<in> set (columns (fst r)) \<and> \<not> any_issue nstr (fst r)))"

subsection \<open>Collaborators for running examples\<close>

text \<open>
  The theorems hold for every service, field count and reader. To run the stages they are
  fixed as follows: a service that always raises, and one that answers with a one-column
  table whose country is still \<^verbatim>\<open>Unknown\<close>; a field count that counts commas; a reader for
  tables of plain text fields, which reads the first line as the column names, every further
  line as a row and an empty field as a missing value, as pandas does on such input. Quoted
  fields and numbers are beyond this reader, which refuses input with a quote or a backslash.
\<close>

definition count_commas :: "string \<Rightarrow> nat option" where
  "count_commas line =
     (if line = [] then Some 0 else Some (Suc (length (filter (\<lambda>c. c = CHR '','') line))))"

fun split_commas :: "string \<Rightarrow> string \<Rightarrow> string list" where
  "split_commas cur [] = [cur]"
| "split_commas cur (c # cs) =
     (if c = CHR '','' then cur # split_commas [] cs else split_commas (cur @ [c]) cs)"

definition read_plain_csv :: "string \<Rightarrow> dataframe option" where
  "read_plain_csv s =
     (case splitlines s of
        [] \<Rightarrow> None
      | header # body \<Rightarrow>
          if list_ex (\<lambda>c. c = CHR 0x22 \<or> c = CHR 0x5C) s then None
          else Some \<lparr>columns = split_commas [] header,
                     rows = map (\<lambda>line. map (\<lambda>field. if field = [] then Null else Str field)
                                          (split_commas [] line)) body\<rparr>)"

definition failing_service :: services where
  "failing_service =
     \<lparr>generate = (\<lambda>_. None), to_csv = (\<lambda>_. []), csv_fields = count_commas,
      read_csv = read_plain_csv\<rparr>"

definition echo_service :: services where
  "echo_service =
     \<lparr>generate = (\<lambda>_. Some (''country'' @ [CHR 0x0A] @ ''Unknown'')), to_csv = (\<lambda>_. []),
      csv_fields = count_commas, read_csv = read_plain_csv\<rparr>"

definition unknown_country_frame :: dataframe where
  "unknown_country_frame = \<lparr>columns = [''country''], rows = [[Str ''Unknown'']]\<rparr>"

definition clean_frame :: dataframe where
  "clean_frame = \<lparr>columns = [''gender''], rows = [[Str ''Male'']]\<rparr>"

section \<open>Properties of the correction stage\<close>

subsection \<open>Phone\<close>

lemma length_pad8: "length (pad8 s) = max 8 (length s)"
  by (simp add: pad8_def)

text \<open>
  C6, as the code has it: a phone value with fewer than 8 digits is padded with zeros on the
  left and formatted, so \<^verbatim>\<open>12-34\<close> becomes \<^verbatim>\<open>0000-1234\<close>. The padded string always has
  8 characters or more, so the sentinel branch is never taken.
\<close>

theorem fix_phone_short:
  assumes "d = filter is_digit (py_str nstr x)" and "length d < 8"
  shows "fix_phone nstr x =
           Str (take 4 (replicate (8 - length d) CHR ''0'' @ d) @ ''-'' @
                drop 4 (replicate (8 - length d) CHR ''0'' @ d))"
  using assms by (simp add: fix_phone_def Let_def length_pad8) (simp add: pad8_def)

theorem fix_phone_short_witness:
  "fix_phone int_repr (Str ''12-34'') = Str ''0000-1234''"
proof -
  have d: "''1234'' = filter is_digit (py_str int_repr (Str ''12-34''))"
    by code_simp
  have "length ''1234'' < 8" by simp
  from fix_phone_short [OF d this] show ?thesis by (simp add: numeral_eq_Suc)
qed

text \<open>
  C6 as the claim has it fails: the correction stage turns the phone \<^verbatim>\<open>12-34\<close> into
  \<^verbatim>\<open>0000-1234\<close>, not into the sentinel \<^verbatim>\<open>0000-0000\<close>.
\<close>

theorem phone_sentinel_counterexample:
  "length (filter is_digit ''12-34'') < 8 \<and>
   correct_issues int_repr exact_ratio \<lparr>columns = [''phone''], rows = [[Str ''12-34'']]\<rparr>
     = \<lparr>columns = [''phone''], rows = [[Str ''0000-1234'']]\<rparr> \<and>
   Str ''0000-1234'' \<noteq> Str ''0000-0000''"
  by code_simp

subsection \<open>Age\<close>

text \<open>
  C8 at the ages 120, 10 and -5: the ages that are numeric and lie in (0,120] are 120 and 10,
  with median 65; the code leaves the age 120 out of the median (its filter is \<^verbatim>\<open>x < 120\<close>)
  and replaces -5 by 10.
\<close>

theorem median_age_boundary:
  "fix_ages \<lparr>columns = [''age''], rows = [[Num 120], [Num 10], [Num (- 5)]]\<rparr>
     = \<lparr>columns = [''age''], rows = [[Num 120], [Num 10], [Num 10]]\<rparr> \<and>
   median [120, 10] = Some 65 \<and>
   fix_age (Num 65) (Num 120) = Num 120"
  by code_simp

subsection \<open>Columns under the steps of the stage\<close>

lemma columns_apply_col [simp]: "columns (apply_col c f df) = columns df"
  by (simp add: apply_col_def)

lemma get_cell_update_cell:
  "get_cell c ks (update_cell c' f ks vs) =
     (if c = c' then map_option f (get_cell c ks vs) else get_cell c ks vs)"
  by (induction c' f ks vs rule: update_cell.induct) auto

lemma get_cell_None: "c \<notin> set ks \<Longrightarrow> get_cell c ks vs = None"
  by (induction c ks vs rule: get_cell.induct) auto

lemma column_apply_col:
  "column c (apply_col c' f df) = (if c = c' then map f (column c df) else column c df)"
  by (auto simp: column_def apply_col_def List.map_filter_def get_cell_update_cell get_cell_None
       comp_def filter_map
       intro!: arg_cong [where f = "map _"] filter_cong)

lemma columns_drop_column: "columns (drop_column c df) = removeAll c (columns df)"
  by (simp add: drop_column_def)

lemma get_cell_drop_cell:
  "c \<noteq> c' \<Longrightarrow> get_cell c (removeAll c' ks) (drop_cell c' ks vs) = get_cell c ks vs"
  by (induction c' ks vs rule: drop_cell.induct) auto

lemma column_drop_column: "c \<noteq> c' \<Longrightarrow> column c (drop_column c' df) = column c df"
  by (simp add: column_def drop_column_def List.map_filter_def get_cell_drop_cell comp_def filter_map)

lemma set_drop_dups: "set (drop_dups seen xs) = set xs - set seen"
  by (induction seen xs rule: drop_dups.induct) auto

lemma distinct_drop_dups: "distinct (drop_dups seen xs)"
  by (induction seen xs rule: drop_dups.induct) (auto simp: set_drop_dups)


lemma columns_drop_duplicates [simp]: "columns (drop_duplicates df) = columns df"
  by (simp add: drop_duplicates_def)

lemma set_rows_drop_duplicates [simp]: "set (rows (drop_duplicates df)) = set (rows df)"
  by (simp add: drop_duplicates_def set_drop_dups)

lemma set_column: "set (column c df) = {v. \<exists>r \<in> set (rows df). get_cell c (columns df) r = Some v}"
  by (force simp: column_def List.map_filter_def)

lemma set_column_drop_duplicates [simp]:
  "set (column c (drop_duplicates df)) = set (column c df)"
  by (simp add: set_column)

lemma columns_fix_names [simp]: "columns (fix_names nstr df) = columns df"
  by (simp add: fix_names_def)

lemma column_fix_names:
  "column c (fix_names nstr df) =
     (if c \<in> set [''first_name'', ''last_name'', ''full_name'']
      then map (fix_name nstr) (column c df) else column c df)"
  by (simp add: fix_names_def column_apply_col)

lemma columns_fix_ages [simp]: "columns (fix_ages df) = columns df"
  by (simp add: fix_ages_def)

lemma column_fix_ages:
  "column c (fix_ages df) =
     (if c = ''age'' then map (fix_age (median_age (column ''age'' df))) (column ''age'' df)
      else column c df)"
  by (simp add: fix_ages_def column_apply_col)

text \<open>The frame before the column rules run: names standardised, duplicate rows removed.\<close>

lemma columns_correct_issues:
  "columns (correct_issues nstr sc df) = removeAll ''issues'' (columns df)"
  by (simp add: correct_issues_def Let_def columns_drop_column)

lemma correct_issues_unfold:
  "correct_issues nstr sc df =
     drop_column ''issues''
      (apply_col ''city'' (match_city nstr sc)
        (apply_col ''phone'' (fix_phone nstr)
          (apply_col ''marital_status'' fix_marital
            (apply_col ''gender'' fix_gender
              (apply_col ''loyalty_points'' fix_loyalty
                (fix_ages
                  (apply_col ''country'' (match_country nstr sc)
                    (drop_duplicates (fix_names nstr df)))))))))"
  by (simp add: correct_issues_def Let_def)

lemma column_correct_issues:
  assumes "c \<noteq> ''issues''"
  shows "column c (correct_issues nstr sc df) =
     (let base = drop_duplicates (fix_names nstr df); vs = column c base in
      if c = ''country'' then map (match_country nstr sc) vs
      else if c = ''age'' then map (fix_age (median_age vs)) vs
      else if c = ''loyalty_points'' then map fix_loyalty vs
      else if c = ''gender'' then map fix_gender vs
      else if c = ''marital_status'' then map fix_marital vs
      else if c = ''phone'' then map (fix_phone nstr) vs
      else if c = ''city'' then map (match_city nstr sc) vs
      else vs)"
  using assms
  by (simp add: correct_issues_def Let_def column_drop_column column_apply_col column_fix_ages)

lemmas column_country = column_correct_issues [of "''country''", simplified, unfolded Let_def]
lemmas column_age = column_correct_issues [of "''age''", simplified, unfolded Let_def]
lemmas column_phone = column_correct_issues [of "''phone''", simplified, unfolded Let_def]

subsection \<open>The median lies between the values\<close>

lemma median_bounds:
  assumes "median xs = Some m" and "\<forall>x \<in> set xs. lo < x \<and> x < hi"
  shows "lo < m \<and> m < hi"
proof -
  let ?s = "sort xs"
  let ?n = "length ?s"
  have in_s: "\<And>i. i < ?n \<Longrightarrow> lo < ?s ! i \<and> ?s ! i < hi"
  proof -
    fix i assume "i < ?n"
    then have "?s ! i \<in> set ?s" by (rule nth_mem)
    then have "?s ! i \<in> set xs" by simp
    with assms(2) show "lo < ?s ! i \<and> ?s ! i < hi" by blast
  qed
  from assms(1) have n: "?n \<noteq> 0"
    by (auto simp: median_def Let_def split: if_splits)
  show ?thesis
  proof (cases "odd ?n")
    case True
    with assms(1) n have "m = ?s ! (?n div 2)"
      by (auto simp: median_def Let_def split: if_splits)
    moreover have "?n div 2 < ?n" using n by simp
    ultimately show ?thesis using in_s by blast
  next
    case False
    with assms(1) n have m: "m = (?s ! (?n div 2 - 1) + ?s ! (?n div 2)) / 2"
      by (auto simp: median_def Let_def split: if_splits)
    have "?n div 2 - 1 < ?n" "?n div 2 < ?n" using n by (simp_all add: less_imp_diff_less)
    then have "lo < ?s ! (?n div 2 - 1) \<and> ?s ! (?n div 2 - 1) < hi"
      and "lo < ?s ! (?n div 2) \<and> ?s ! (?n div 2) < hi"
      using in_s by blast+
    with m show ?thesis by (simp add: field_simps)
  qed
qed

lemma sort_eq_Nil: "sort xs = [] \<longleftrightarrow> xs = []"
  by (metis length_sort length_0_conv)

lemma median_None: "median xs = None \<longleftrightarrow> xs = []"
proof (cases "xs = []")
  case True
  then show ?thesis by (simp add: median_def)
next
  case False
  then have "length (sort xs) \<noteq> 0" by simp
  then have "median xs \<noteq> None"
    unfolding median_def Let_def by (cases "odd (length (sort xs))") (simp_all only: if_False if_True option.distinct not_False_eq_True)
  with False show ?thesis by simp
qed

lemma set_num_values: "set (num_values vs) = {r. Num r \<in> set vs}"
  by (induction vs) (auto simp: num_values_def split: cell.splits)

lemma median_age_cases:
  "(median_age vs = Null \<and> (\<forall>x \<in> set vs. \<not> median_candidate x)) \<or>
   (\<exists>m. median_age vs = Num m \<and> 0 < m \<and> m < 120)"
proof (cases "median (num_values (filter median_candidate vs))")
  case None
  then have "num_values (filter median_candidate vs) = []" by (simp add: median_None)
  then have "\<forall>x \<in> set vs. \<not> median_candidate x"
    using set_num_values [of "filter median_candidate vs"]
    by (auto simp: median_candidate_def split: cell.splits)
  with None show ?thesis by (simp add: median_age_def)
next
  case (Some m)
  have "\<forall>x \<in> set (num_values (filter median_candidate vs)). 0 < x \<and> x < 120"
    by (auto simp: set_num_values median_candidate_def)
  from median_bounds [OF Some this] Some show ?thesis by (simp add: median_age_def)
qed

subsection \<open>The fuzzy matcher answers from the vocabulary\<close>

lemma best_of_mem: "fst (best_of sc q b cs) \<in> insert (fst b) (set cs)"
proof (induction cs arbitrary: b)
  case Nil
  show ?case by simp
next
  case (Cons c cs)
  from Cons [of "if snd b < sc q c then (c, sc q c) else b"]
  show ?case by (auto split: if_splits)
qed

lemma extractOne_mem: "extractOne sc q vocab = Some (m, s) \<Longrightarrow> m \<in> set vocab"
  using best_of_mem [of sc q "(hd vocab, sc q (hd vocab))" "tl vocab"]
  by (cases vocab) (auto simp: extractOne_def)

lemma extractOne_Some: "vocab \<noteq> [] \<Longrightarrow> \<exists>m s. extractOne sc q vocab = Some (m, s)"
  by (cases vocab) (auto simp: extractOne_def intro: prod.exhaust)

lemma fuzzy_match_cases:
  assumes "vocab \<noteq> []"
  shows "fuzzy_match nstr sc vocab t v = Str ''Unknown'' \<or>
         (\<exists>m \<in> set vocab. fuzzy_match nstr sc vocab t v = Str m)"
proof -
  from extractOne_Some [OF assms]
  obtain m s where e: "extractOne sc (title (strip (py_str nstr v))) vocab = Some (m, s)"
    by blast
  from extractOne_mem [OF e] have "m \<in> set vocab" .
  with e show ?thesis by (auto simp: fuzzy_match_def Let_def)
qed

lemma match_country_cases:
  "match_country nstr sc v = Str ''Unknown'' \<or>
   (\<exists>m \<in> set CANONICAL_COUNTRIES. match_country nstr sc v = Str m)"
  unfolding match_country_def
  by (rule fuzzy_match_cases) (simp add: CANONICAL_COUNTRIES_def)

lemma match_city_cases:
  "match_city nstr sc v = Str ''Unknown'' \<or>
   (\<exists>m \<in> set CANONICAL_CITIES. match_city nstr sc v = Str m)"
  unfolding match_city_def
  by (rule fuzzy_match_cases) (simp add: CANONICAL_CITIES_def)

subsection \<open>Canonical values after correction\<close>

lemma fix_age_in_range: "0 < m \<Longrightarrow> m < 120 \<Longrightarrow> age_in_range (fix_age (Num m) x)"
  by (auto simp: fix_age_def age_in_range_def split: cell.splits)

lemma fix_loyalty_in_range: "loyalty_in_range (fix_loyalty x)"
  by (auto simp: fix_loyalty_def loyalty_in_range_def split: cell.splits)

lemma fix_gender_mem: "fix_gender x \<in> Str ` set GENDERS"
  by (auto simp: fix_gender_def GENDERS_def)

lemma fix_marital_mem: "fix_marital x \<in> Str ` set MARITAL_STATUSES"
  by (auto simp: fix_marital_def MARITAL_STATUSES_def)

lemma set_age_column_base:
  "set (column ''age'' (drop_duplicates (fix_names nstr df))) = set (column ''age'' df)"
  by (simp add: column_fix_names)

lemma median_age_Null_iff:
  "median_age vs = Null \<longleftrightarrow> (\<forall>x \<in> set vs. \<not> median_candidate x)"
proof
  assume "median_age vs = Null"
  with median_age_cases [of vs] show "\<forall>x \<in> set vs. \<not> median_candidate x" by auto
next
  assume "\<forall>x \<in> set vs. \<not> median_candidate x"
  then have "filter median_candidate vs = []" by (simp add: filter_empty_conv)
  then show "median_age vs = Null" by (simp add: median_age_def num_values_def median_def)
qed

lemma median_age_base:
  "median_age (column ''age'' (drop_duplicates (fix_names nstr df))) = Null \<longleftrightarrow>
   median_age (column ''age'' df) = Null"
  by (simp only: median_age_Null_iff set_age_column_base)

lemma fix_age_range_or_null:
  "m = Null \<or> age_in_range m \<Longrightarrow> age_in_range (fix_age m x) \<or> fix_age m x = Null"
  by (auto simp: fix_age_def age_in_range_def split: cell.splits)

lemma median_age_range_or_null: "median_age vs = Null \<or> age_in_range (median_age vs)"
  using median_age_cases [of vs] by (auto simp: age_in_range_def)

text \<open>
  C7, as the code has it. After the correction stage country and city are \<^verbatim>\<open>Unknown\<close> or
  in their vocabulary, gender and marital status are in theirs, and loyalty points are a
  number that is not negative. Every age is a number in (0,120] or NaN, and it is a number
  in (0,120] whenever the median that the stage takes for the replacement is defined;
  whether it is defined does not depend on the removal of duplicate rows, so the condition
  is stated on the age column of the input.
\<close>

theorem correct_issues_canonical:
  fixes nstr sc df
  defines "out \<equiv> correct_issues nstr sc df"
  shows "(\<forall>v \<in> set (column ''country'' out). v = Str ''Unknown'' \<or> v \<in> Str ` set CANONICAL_COUNTRIES) \<and>
         (\<forall>v \<in> set (column ''city'' out). v = Str ''Unknown'' \<or> v \<in> Str ` set CANONICAL_CITIES) \<and>
         (\<forall>v \<in> set (column ''gender'' out). v \<in> Str ` set GENDERS) \<and>
         (\<forall>v \<in> set (column ''marital_status'' out). v \<in> Str ` set MARITAL_STATUSES) \<and>
         (\<forall>v \<in> set (column ''loyalty_points'' out). loyalty_in_range v) \<and>
         (\<forall>v \<in> set (column ''age'' out). age_in_range v \<or> v = Null) \<and>
         (median_age (column ''age'' df) \<noteq> Null \<longrightarrow>
            (\<forall>v \<in> set (column ''age'' out). age_in_range v))"
proof (intro conjI)
  show "\<forall>v \<in> set (column ''country'' out). v = Str ''Unknown'' \<or> v \<in> Str ` set CANONICAL_COUNTRIES"
    using match_country_cases [of nstr sc]
    by (auto simp: out_def column_correct_issues Let_def)
  show "\<forall>v \<in> set (column ''city'' out). v = Str ''Unknown'' \<or> v \<in> Str ` set CANONICAL_CITIES"
    using match_city_cases [of nstr sc]
    by (auto simp: out_def column_correct_issues Let_def)
  show "\<forall>v \<in> set (column ''gender'' out). v \<in> Str ` set GENDERS"
    using fix_gender_mem by (auto simp: out_def column_correct_issues Let_def)
  show "\<forall>v \<in> set (column ''marital_status'' out). v \<in> Str ` set MARITAL_STATUSES"
    using fix_marital_mem by (auto simp: out_def column_correct_issues Let_def)
  show "\<forall>v \<in> set (column ''loyalty_points'' out). loyalty_in_range v"
    using fix_loyalty_in_range by (auto simp: out_def column_correct_issues Let_def)
  let ?vs = "column ''age'' (drop_duplicates (fix_names nstr df))"
  have col: "column ''age'' out = map (fix_age (median_age ?vs)) ?vs"
    by (simp add: out_def column_age)
  show "\<forall>v \<in> set (column ''age'' out). age_in_range v \<or> v = Null"
    using fix_age_range_or_null [OF median_age_range_or_null [of ?vs]]
    by (auto simp: col)
  show "median_age (column ''age'' df) \<noteq> Null \<longrightarrow>
          (\<forall>v \<in> set (column ''age'' out). age_in_range v)"
  proof
    assume "median_age (column ''age'' df) \<noteq> Null"
    then have "median_age ?vs \<noteq> Null" by (simp only: median_age_base not_False_eq_True)
    with median_age_cases [of ?vs]
    obtain m where m: "median_age ?vs = Num m" "0 < m" "m < 120" by blast
    from col have "column ''age'' out = map (fix_age (Num m)) ?vs"
      by (simp add: m(1))
    then show "\<forall>v \<in> set (column ''age'' out). age_in_range v"
      using fix_age_in_range [OF m(2) m(3)] by auto
  qed
qed

theorem correct_issues_canonical_witness:
  "median_age (column ''age'' example_frame) \<noteq> Null \<and>
   column ''age'' (correct_issues int_repr exact_ratio example_frame) = [Num 30, Num 30] \<and>
   list_all age_in_range (column ''age'' (correct_issues int_repr exact_ratio example_frame)) \<and>
   list_all loyalty_in_range
     (column ''loyalty_points'' (correct_issues int_repr exact_ratio example_frame)) \<and>
   column ''country'' (correct_issues int_repr exact_ratio example_frame)
     = [Str ''India'', Str ''India''] \<and>
   list_all (\<lambda>v. v \<in> Str ` set GENDERS)
     (column ''gender'' (correct_issues int_repr exact_ratio example_frame))"
proof -
  have h: "median_age (column ''age'' example_frame) \<noteq> Null"
    by code_simp
  have a: "column ''age'' (correct_issues int_repr exact_ratio example_frame) = [Num 30, Num 30]"
    unfolding column_age by code_simp
  have c: "column ''country'' (correct_issues int_repr exact_ratio example_frame)
       = [Str ''India'', Str ''India'']"
    unfolding column_country by code_simp
  from correct_issues_canonical [of int_repr exact_ratio example_frame] h a c
  show ?thesis by (simp add: list_all_iff)
qed

text \<open>
  C7 as the claim has it fails for the age: in a frame whose only age is -5 there is no
  plausible age to take a median of, and the age -5 is replaced by NaN.
\<close>

theorem age_range_counterexample:
  "median_age (column ''age'' \<lparr>columns = [''age''], rows = [[Num (- 5)]]\<rparr>) = Null \<and>
   column ''age'' (correct_issues int_repr exact_ratio \<lparr>columns = [''age''], rows = [[Num (- 5)]]\<rparr>)
     = [Null] \<and> \<not> age_in_range Null"
  unfolding column_age by code_simp

subsection \<open>What the stage leaves alone\<close>

lemma drop_dups_select:
  "drop_dups seen xs = select_rows (map Not (duplicated_first seen xs)) xs"
  by (induction seen xs rule: drop_dups.induct) auto

lemma map_filter_select_rows:
  "\<forall>r \<in> set rs. g r \<noteq> None \<Longrightarrow>
   List.map_filter g (select_rows m rs) = select_rows m (List.map_filter g rs)"
  by (induction m rs rule: select_rows.induct) (auto simp: List.map_filter_simps)

lemma map_filter_all_None: "\<forall>r \<in> set rs. g r = None \<Longrightarrow> List.map_filter g rs = []"
  by (induction rs) (auto simp: List.map_filter_simps)

lemma get_cell_Some:
  "c \<in> set ks \<Longrightarrow> length vs = length ks \<Longrightarrow> get_cell c ks vs \<noteq> None"
  by (induction c ks vs rule: get_cell.induct) auto

lemma length_update_cell [simp]: "length (update_cell c f ks vs) = length vs"
  by (induction c f ks vs rule: update_cell.induct) auto

lemma wf_apply_col: "wf_frame df \<Longrightarrow> wf_frame (apply_col c f df)"
  by (simp add: wf_frame_def apply_col_def list_all_iff)

lemma wf_fix_names: "wf_frame df \<Longrightarrow> wf_frame (fix_names nstr df)"
  by (simp add: fix_names_def wf_apply_col)

lemma set_select_rows: "set (select_rows m xs) \<subseteq> set xs"
  by (induction m xs rule: select_rows.induct) auto

lemma column_select_rows:
  assumes "wf_frame df"
  shows "column c (df\<lparr>rows := select_rows m (rows df)\<rparr>) = select_rows m (column c df)"
proof (cases "c \<in> set (columns df)")
  case True
  with assms have "\<forall>r \<in> set (rows df). get_cell c (columns df) r \<noteq> None"
    by (auto simp: wf_frame_def list_all_iff get_cell_Some)
  then show ?thesis by (simp add: column_def map_filter_select_rows)
next
  case False
  then have "\<And>rs. List.map_filter (get_cell c (columns df)) rs = []"
    by (simp add: map_filter_all_None get_cell_None)
  then show ?thesis by (simp add: column_def)
qed

text \<open>
  C10. The columns after correction are the columns before without the issues column, in
  the same order: none is added and no other is removed. A column that no rule names holds,
  after correction, its values of the rows that the removal of duplicates kept.
\<close>

theorem correct_issues_frame:
  assumes "wf_frame df"
  shows "columns (correct_issues nstr sc df) = removeAll ''issues'' (columns df) \<and>
         (\<forall>c. c \<notin> set [''first_name'', ''last_name'', ''full_name'', ''country'', ''age'',
                       ''loyalty_points'', ''gender'', ''marital_status'', ''phone'', ''city'',
                       ''issues''] \<longrightarrow>
              column c (correct_issues nstr sc df) =
                select_rows (map Not (duplicated_first [] (rows (fix_names nstr df))))
                  (column c df))"
proof (intro conjI allI impI)
  show "columns (correct_issues nstr sc df) = removeAll ''issues'' (columns df)"
    by (rule columns_correct_issues)
next
  fix c
  assume c: "c \<notin> set [''first_name'', ''last_name'', ''full_name'', ''country'', ''age'',
                       ''loyalty_points'', ''gender'', ''marital_status'', ''phone'', ''city'',
                       ''issues'']"
  let ?F = "fix_names nstr df"
  let ?m = "map Not (duplicated_first [] (rows ?F))"
  from c have "column c (correct_issues nstr sc df) = column c (drop_duplicates ?F)"
    by (simp add: column_correct_issues Let_def)
  also have "drop_duplicates ?F = ?F\<lparr>rows := select_rows ?m (rows ?F)\<rparr>"
    by (simp add: drop_duplicates_def drop_dups_select)
  also have "column c \<dots> = select_rows ?m (column c ?F)"
    by (rule column_select_rows) (rule wf_fix_names [OF assms])
  also from c have "column c ?F = column c df"
    by (simp add: column_fix_names)
  finally show "column c (correct_issues nstr sc df) = select_rows ?m (column c df)" .
qed

theorem correct_issues_frame_witness:
  "wf_frame example_frame \<and>
   columns (correct_issues int_repr exact_ratio example_frame)
     = [''first_name'', ''country'', ''city'', ''gender'', ''marital_status'',
        ''loyalty_points'', ''age'', ''phone'', ''notes''] \<and>
   column ''notes'' (correct_issues int_repr exact_ratio example_frame) = [Str ''a b'', Null]"
proof -
  have w: "wf_frame example_frame" by code_simp
  have m: "select_rows (map Not (duplicated_first [] (rows (fix_names int_repr example_frame))))
             (column ''notes'' example_frame) = [Str ''a b'', Null]"
    by code_simp
  have r: "removeAll ''issues'' (columns example_frame)
     = [''first_name'', ''country'', ''city'', ''gender'', ''marital_status'',
        ''loyalty_points'', ''age'', ''phone'', ''notes'']"
    by code_simp
  from correct_issues_frame [OF w, of int_repr exact_ratio] m r w
  show ?thesis by simp
qed

subsection \<open>Corrected phones pass detection\<close>

lemma length4: "length xs = 4 \<Longrightarrow> \<exists>a b c d. xs = [a, b, c, d]"
  by (auto simp: length_Suc_conv numeral_eq_Suc)

lemma is_digit_zero: "is_digit CHR ''0''"
  by (simp add: is_digit_def)

lemma digits_pad8: "\<forall>c \<in> set (pad8 (filter is_digit s)). is_digit c"
  by (auto simp: pad8_def is_digit_zero)

lemma matches_phone_format:
  assumes "\<forall>x \<in> set u. is_digit x" "length u = 4" "\<forall>x \<in> set v. is_digit x" "length v = 4"
  shows "matches PHONE_REGEX (u @ ''-'' @ v)"
proof -
  from length4 [OF assms(2)] obtain a b c d where u: "u = [a, b, c, d]" by blast
  from length4 [OF assms(4)] obtain e f g h where v: "v = [e, f, g, h]" by blast
  from assms(1,3) show ?thesis unfolding u v by (simp add: PHONE_REGEX_def)
qed

lemma fix_phone_valid: "\<exists>s. fix_phone nstr x = Str s \<and> str_match PHONE_REGEX s"
proof -
  let ?p = "pad8 (filter is_digit (py_str nstr x))"
  let ?u = "take 4 (drop (length ?p - 8) ?p)"
  let ?v = "drop (length ?p - 4) ?p"
  have len: "8 \<le> length ?p" by (simp add: length_pad8)
  have dig: "\<forall>c \<in> set ?p. is_digit c" by (rule digits_pad8)
  have "set ?u \<subseteq> set ?p" by (meson set_take_subset set_drop_subset subset_trans)
  with dig have du: "\<forall>x \<in> set ?u. is_digit x" by blast
  have "set ?v \<subseteq> set ?p" by (rule set_drop_subset)
  with dig have dv: "\<forall>x \<in> set ?v. is_digit x" by blast
  from len have lu: "length ?u = 4" and lv: "length ?v = 4" by simp_all
  have "matches PHONE_REGEX (?u @ ''-'' @ ?v)"
    by (rule matches_phone_format [OF du lu dv lv])
  moreover from len have "fix_phone nstr x = Str (?u @ ''-'' @ ?v)"
    by (simp add: fix_phone_def Let_def)
  ultimately show ?thesis by (simp add: str_match_def)
qed

lemma fix_phone_not_invalid: "\<not> invalid_phone nstr (fix_phone nstr x)"
  using fix_phone_valid [of nstr x] by (auto simp: invalid_phone_def py_str_def)

text \<open>Only the phone rule writes the tag \<^verbatim>\<open>Invalid Phone\<close>.\<close>

lemma issue_series_tag:
  "s \<in> set (issue_series c p tag df) \<Longrightarrow> t \<in> set s \<Longrightarrow> t = tag \<or> t = []"
  by (auto simp: issue_series_def split: if_splits)

lemma issue_series_fires:
  "s \<in> set (issue_series c p tag df) \<Longrightarrow> tag \<in> set s \<Longrightarrow> tag \<noteq> [] \<Longrightarrow>
   \<exists>x \<in> set (column c df). p x"
  by (auto simp: issue_series_def split: if_splits)

lemma invalid_phone_tag_origin:
  assumes "s \<in> set (all_issues nstr df)" and "''Invalid Phone'' \<in> set s"
  shows "\<exists>x \<in> set (column ''phone'' df). invalid_phone nstr x"
proof -
  from assms(1) consider
      (phone) "s \<in> set (issue_series ''phone'' (invalid_phone nstr) ''Invalid Phone'' df)"
    | (other) c p tag where "s \<in> set (issue_series c p tag df)" "tag \<noteq> ''Invalid Phone''"
    | (dup) "s = map (\<lambda>x. if x then ''Duplicate'' else []) (duplicate_mask df)"
    unfolding all_issues_def by (auto simp del: issue_series_def)
  then show ?thesis
  proof cases
    case phone
    from issue_series_fires [OF phone assms(2)] show ?thesis by simp
  next
    case other
    from issue_series_tag [OF other(1) assms(2)] other(2) show ?thesis by simp
  next
    case dup
    with assms(2) show ?thesis by (auto split: if_splits)
  qed
qed

lemma wf_drop_duplicates: "wf_frame df \<Longrightarrow> wf_frame (drop_duplicates df)"
  by (simp add: wf_frame_def list_all_iff)

lemma length_drop_cell:
  "length vs = length ks \<Longrightarrow> length (drop_cell c ks vs) = length (removeAll c ks)"
  by (induction c ks vs rule: drop_cell.induct) auto

lemma wf_drop_column: "wf_frame df \<Longrightarrow> wf_frame (drop_column c df)"
  by (auto simp: wf_frame_def drop_column_def list_all_iff length_drop_cell distinct_removeAll)

lemma wf_fix_ages: "wf_frame df \<Longrightarrow> wf_frame (fix_ages df)"
  by (simp add: fix_ages_def wf_apply_col)

lemma wf_correct_issues: "wf_frame df \<Longrightarrow> wf_frame (correct_issues nstr sc df)"
  unfolding correct_issues_unfold
  by (intro wf_drop_column wf_apply_col wf_fix_ages wf_drop_duplicates wf_fix_names)

lemma length_column:
  assumes "wf_frame df" and "c \<in> set (columns df)"
  shows "length (column c df) = length (rows df)"
proof -
  from assms have "\<forall>r \<in> set (rows df). get_cell c (columns df) r \<noteq> None"
    by (auto simp: wf_frame_def list_all_iff get_cell_Some)
  then have "filter (\<lambda>r. get_cell c (columns df) r \<noteq> None) (rows df) = rows df"
    by (simp add: filter_id_conv)
  then show ?thesis by (simp add: column_def List.map_filter_def)
qed

lemma length_issue_series:
  "wf_frame df \<Longrightarrow> s \<in> set (issue_series c p tag df) \<Longrightarrow> length s = length (rows df)"
  by (auto simp: issue_series_def length_column split: if_splits)

lemma length_all_issues:
  assumes "wf_frame df" and "s \<in> set (all_issues nstr df)"
  shows "length s = length (rows df)"
  using assms(2) length_issue_series [OF assms(1)]
  unfolding all_issues_def by (auto simp: duplicate_mask_def simp del: issue_series_def)

lemma issue_rows_no_invalid_phone:
  assumes "wf_frame df" and "\<forall>x \<in> set (column ''phone'' df). \<not> invalid_phone nstr x"
    and "row \<in> set (issue_rows (all_issues nstr df) (length (rows df)))"
  shows "''Invalid Phone'' \<notin> set row"
proof
  assume "''Invalid Phone'' \<in> set row"
  with assms(3) obtain i s where i: "i < length (rows df)" and s: "s \<in> set (all_issues nstr df)"
    and t: "s ! i = ''Invalid Phone''"
    by (auto simp: issue_rows_def)
  from length_all_issues [OF assms(1) s] i have "s ! i \<in> set s" by simp
  with t have "''Invalid Phone'' \<in> set s" by simp
  from invalid_phone_tag_origin [OF s this] assms(2) show False by blast
qed

lemma all_issues_nonempty: "all_issues nstr df \<noteq> []"
  by (simp add: all_issues_def)

lemma map_filter_map_Some:
  "\<forall>z \<in> set zs. g (h z) = Some (k z) \<Longrightarrow> List.map_filter g (map h zs) = map k zs"
  by (induction zs) (auto simp: List.map_filter_simps)

lemma get_cell_append:
  "c \<notin> set ks \<Longrightarrow> length r = length ks \<Longrightarrow> get_cell c (ks @ [c]) (r @ [v]) = Some v"
  by (induction c ks r rule: get_cell.induct) auto

lemma get_cell_const:
  "c \<in> set ks \<Longrightarrow> length r = length ks \<Longrightarrow>
   get_cell c ks (update_cell c (\<lambda>_. v) ks r) = Some v"
  using get_cell_Some [of c ks r] by (auto simp: get_cell_update_cell)

lemma column_set_column:
  assumes "wf_frame df" and "length vals = length (rows df)"
  shows "column c (set_column c vals df) = vals"
proof -
  have len: "\<forall>z \<in> set (zip vals (rows df)). length (snd z) = length (columns df)"
    using assms(1) by (auto simp: wf_frame_def list_all_iff dest: set_zip_rightD)
  have fst: "map fst (zip vals (rows df)) = vals"
    using assms(2) by simp
  show ?thesis
  proof (cases "c \<in> set (columns df)")
    case True
    with len have "\<forall>z \<in> set (zip vals (rows df)).
        get_cell c (columns df) ((\<lambda>(v, r). update_cell c (\<lambda>_. v) (columns df) r) z) = Some (fst z)"
      by (auto simp: get_cell_const)
    then have "List.map_filter (get_cell c (columns df))
        (map (\<lambda>(v, r). update_cell c (\<lambda>_. v) (columns df) r) (zip vals (rows df)))
          = map fst (zip vals (rows df))"
      by (rule map_filter_map_Some)
    with True fst show ?thesis
      by (simp add: column_def set_column_def)
  next
    case False
    with len have "\<forall>z \<in> set (zip vals (rows df)).
        get_cell c (columns df @ [c]) ((\<lambda>(v, r). r @ [v]) z) = Some (fst z)"
      by (auto simp: get_cell_append)
    then have "List.map_filter (get_cell c (columns df @ [c]))
        (map (\<lambda>(v, r). r @ [v]) (zip vals (rows df))) = map fst (zip vals (rows df))"
      by (rule map_filter_map_Some)
    with False fst show ?thesis
      by (simp add: column_def set_column_def)
  qed
qed

lemma length_issue_rows [simp]: "length (issue_rows issues n) = n"
  by (simp add: issue_rows_def)

lemma column_issues_detect:
  assumes "wf_frame df"
  shows "column ''issues'' (detect_issues nstr df) =
           map (\<lambda>row. Str (combine_issues row))
             (issue_rows (all_issues nstr df) (length (rows df)))"
  unfolding detect_issues_def using all_issues_nonempty [of nstr df]
  by (simp add: column_set_column [OF assms])

text \<open>
  C9. Every phone value that the correction stage produces matches the phone pattern of
  the detection stage, and in the detection pass that follows no row carries the tag
  \<^verbatim>\<open>Invalid Phone\<close>; the issues column of that pass is the tags of each row joined.
\<close>

theorem corrected_phone_valid:
  fixes nstr sc df
  assumes "wf_frame df"
  defines "out \<equiv> correct_issues nstr sc df"
  shows "(\<forall>v \<in> set (column ''phone'' out). \<exists>s. v = Str s \<and> str_match PHONE_REGEX s) \<and>
         (\<forall>row \<in> set (issue_rows (all_issues nstr out) (length (rows out))).
            ''Invalid Phone'' \<notin> set row) \<and>
         column ''issues'' (detect_issues nstr out) =
           map (\<lambda>row. Str (combine_issues row))
             (issue_rows (all_issues nstr out) (length (rows out)))"
proof (intro conjI)
  show "\<forall>v \<in> set (column ''phone'' out). \<exists>s. v = Str s \<and> str_match PHONE_REGEX s"
    using fix_phone_valid [of nstr] by (auto simp: out_def column_phone)
  have ok: "\<forall>x \<in> set (column ''phone'' out). \<not> invalid_phone nstr x"
    using fix_phone_not_invalid [of nstr] by (auto simp: out_def column_phone)
  have wf: "wf_frame out" unfolding out_def by (rule wf_correct_issues [OF assms(1)])
  show "\<forall>row \<in> set (issue_rows (all_issues nstr out) (length (rows out))).
            ''Invalid Phone'' \<notin> set row"
    using issue_rows_no_invalid_phone [OF wf ok] by blast
  show "column ''issues'' (detect_issues nstr out) =
           map (\<lambda>row. Str (combine_issues row))
             (issue_rows (all_issues nstr out) (length (rows out)))"
    by (rule column_issues_detect [OF wf])
qed

theorem corrected_phone_valid_witness:
  "wf_frame phone_frame \<and>
   column ''phone'' (correct_issues int_repr exact_ratio phone_frame)
     = [Str ''0555-1234'', Str ''0000-0000'', Str ''0000-1234'', Str ''6555-0199''] \<and>
   list_all (\<lambda>v. \<exists>s. v = Str s \<and> str_match PHONE_REGEX s)
     (column ''phone'' (correct_issues int_repr exact_ratio phone_frame)) \<and>
   list_all (\<lambda>row. ''Invalid Phone'' \<notin> set row)
     (issue_rows (all_issues int_repr (correct_issues int_repr exact_ratio phone_frame))
        (length (rows (correct_issues int_repr exact_ratio phone_frame))))"
proof -
  have w: "wf_frame phone_frame" by code_simp
  have c: "column ''phone'' (correct_issues int_repr exact_ratio phone_frame)
     = [Str ''0555-1234'', Str ''0000-0000'', Str ''0000-1234'', Str ''6555-0199'']"
    unfolding column_phone by code_simp
  from corrected_phone_valid [OF w, of int_repr exact_ratio] c w
  show ?thesis by (simp add: list_all_iff)
qed

subsection \<open>Canonical countries under the country rule\<close>

lemma match_country_passes_detection:
  "match_country nstr sc v \<noteq> Str ''Unknown'' \<Longrightarrow> \<not> non_canonical (match_country nstr sc v)"
  using match_country_cases [of nstr sc v] by (auto simp: non_canonical_def)

text \<open>
  C5 at the vocabulary entry \<^verbatim>\<open>UAE\<close>: the rule title-cases the cell to \<^verbatim>\<open>Uae\<close>, which
  is not in the vocabulary, so the cell does not pass through: the matcher is consulted and
  its score decides the result. A scorer that compares the strings as they are, like
  \<open>exact_ratio\<close>, gives \<^verbatim>\<open>Unknown\<close>.
\<close>

theorem match_country_UAE:
  "''UAE'' \<in> set CANONICAL_COUNTRIES \<and>
   title (strip ''UAE'') = ''Uae'' \<and>
   ''Uae'' \<notin> set CANONICAL_COUNTRIES \<and>
   match_country nstr sc (Str ''UAE'') =
     (case extractOne sc ''Uae'' CANONICAL_COUNTRIES of
        None \<Rightarrow> Null
      | Some (m, score) \<Rightarrow> if score > 70 then Str m else Str ''Unknown'') \<and>
   match_country nstr exact_ratio (Str ''UAE'') = Str ''Unknown''"
proof -
  have a: "''UAE'' \<in> set CANONICAL_COUNTRIES" by code_simp
  have b: "title (strip ''UAE'') = ''Uae''" by code_simp
  have c: "''Uae'' \<notin> set CANONICAL_COUNTRIES" by code_simp
  have d: "match_country nstr sc (Str ''UAE'') =
     (case extractOne sc ''Uae'' CANONICAL_COUNTRIES of
        None \<Rightarrow> Null
      | Some (m, score) \<Rightarrow> if score > 70 then Str m else Str ''Unknown'')"
    using c by (simp add: match_country_def fuzzy_match_def Let_def py_str_def b)
  have e: "match_country nstr exact_ratio (Str ''UAE'') = Str ''Unknown''"
    by code_simp
  from a b c d e show ?thesis by blast
qed

subsection \<open>Title case and stripping\<close>



lemma space_uncased: "is_space c \<Longrightarrow> \<not> is_lower c \<and> \<not> is_upper c"
  by (auto simp: is_lower_def is_upper_def is_space_def Let_def)




lemma title_aux_space: "is_space c \<Longrightarrow> title_aux b (c # cs) = c # title_aux False cs"
  by (simp add: space_uncased)



text \<open>Trailing white space.\<close>

lemma rstrip_snoc:
  "rev (dropWhile is_space (rev (s @ [c]))) =
     (if is_space c then rev (dropWhile is_space (rev s)) else s @ [c])"
  by simp










subsection \<open>The rules of the columns are fixed on their own results\<close>
























subsection \<open>Correcting twice\<close>







section \<open>Properties of the orchestrator and of the enrichment stage\<close>

subsection \<open>The number of detection passes\<close>

declare main_loop.simps [simp del]

lemma detections_append [simp]: "detections (xs @ ys) = detections xs + detections ys"
  by (simp add: detections_def)

lemma detections_simps [simp]:
  "detections [] = 0"
  "detections (Detection # tr) = Suc (detections tr)"
  "e \<noteq> Detection \<Longrightarrow> detections (e # tr) = detections tr"
  by (simp_all add: detections_def)

lemma detections_main_loop:
  "detections (snd (main_loop nstr sc sv i df tr))
     \<le> detections tr + (if i < max_iterations then Suc max_iterations - i else 0)"
proof (induction nstr sc sv i df tr rule: main_loop.induct)
  case (1 nstr sc sv iteration df tr)
  show ?case
  proof (cases "iteration < max_iterations")
    case False
    then show ?thesis by (simp add: main_loop.simps [of nstr sc sv iteration df tr])
  next
    case lt: True
    show ?thesis
    proof (cases "needs_correction nstr (detect_issues nstr df)")
      case False
      with lt show ?thesis
        by (simp add: main_loop.simps [of nstr sc sv iteration df tr])
    next
      case nc: True
      show ?thesis
      proof (cases "needs_enrichment nstr (correct_issues nstr sc (detect_issues nstr df))")
        case False
        with lt nc show ?thesis
          by (simp add: main_loop.simps [of nstr sc sv iteration df tr])
      next
        case ne: True
        show ?thesis
        proof (cases "Suc iteration = max_iterations")
          case True
          from "1.IH"(1) [OF lt nc ne True] lt nc ne True show ?thesis
            by (simp add: main_loop.simps [of nstr sc sv iteration df tr])
        next
          case False
          from "1.IH"(2) [OF lt nc ne False] lt nc ne False show ?thesis
            by (auto simp: main_loop.simps [of nstr sc sv iteration df tr] split: if_splits)
        qed
      qed
    qed
  qed
qed

text \<open>
  C2, as the code has it. A run detects at most four times: once at the start of each of at
  most three passes of the loop, and once more after the enrichment of the third pass.
\<close>

theorem detections_main: "detections (snd (main nstr sc sv df)) \<le> 4"
  using detections_main_loop [of nstr sc sv 0 df "[]"]
  by (simp add: main_def max_iterations_def)

text \<open>
  C2 as the claim has it fails: with a country that stays \<^verbatim>\<open>Unknown\<close> and a service
  that answers with the same table, every pass detects, corrects and enriches, and the third
  pass detects again: four detection passes.
\<close>

theorem four_detections_counterexample:
  "main int_repr exact_ratio echo_service unknown_country_frame =
     (\<lparr>columns = [''country'', ''issues''],
       rows = [[Str ''Unknown'', Str ''Non-canonical Country'']]\<rparr>,
      [Detection, Correction, Enrichment [EnrichedAll], Detection, Correction,
       Enrichment [EnrichedAll], Detection, Correction, Enrichment [EnrichedAll],
       Detection, MaximumReached]) \<and>
   detections (snd (main int_repr exact_ratio echo_service unknown_country_frame)) = 4 \<and>
   \<not> detections (snd (main int_repr exact_ratio echo_service unknown_country_frame)) \<le> 3"
  by code_simp

subsection \<open>The issues column when the run stops\<close>

lemma issues_in_detect: "''issues'' \<in> set (columns (detect_issues nstr df))"
  using all_issues_nonempty [of nstr df]
  by (simp add: detect_issues_def set_column_def)

lemma stop_ok_main_loop:
  "NoEnrichmentNeeded \<notin> set tr \<Longrightarrow> NoCorrectionNeeded \<notin> set tr \<Longrightarrow>
   stop_ok nstr (main_loop nstr sc sv i df tr)"
proof (induction nstr sc sv i df tr rule: main_loop.induct)
  case (1 nstr sc sv iteration df tr)
  show ?case
  proof (cases "iteration < max_iterations")
    case False
    with "1.prems" show ?thesis
      by (simp add: main_loop.simps [of nstr sc sv iteration df tr] stop_ok_def)
  next
    case lt: True
    show ?thesis
    proof (cases "needs_correction nstr (detect_issues nstr df)")
      case False
      with lt issues_in_detect [of nstr df] "1.prems" show ?thesis
        by (simp add: main_loop.simps [of nstr sc sv iteration df tr] stop_ok_def
              needs_correction_def)
    next
      case nc: True
      show ?thesis
      proof (cases "needs_enrichment nstr (correct_issues nstr sc (detect_issues nstr df))")
        case False
        with lt nc "1.prems" show ?thesis
          by (simp add: main_loop.simps [of nstr sc sv iteration df tr] stop_ok_def
                columns_correct_issues)
      next
        case ne: True
        show ?thesis
        proof (cases "Suc iteration = max_iterations")
          case True
          have "main_loop nstr sc sv iteration df tr =
            main_loop nstr sc sv (Suc iteration)
                   (detect_issues nstr
                      (fst (enrich_data nstr sv (correct_issues nstr sc (detect_issues nstr df)))))
                   (tr @ [Detection, Correction,
                          Enrichment (snd (enrich_data nstr sv
                                             (correct_issues nstr sc (detect_issues nstr df)))),
                          Detection,
                          if any_issue nstr
                               (detect_issues nstr
                                  (fst (enrich_data nstr sv
                                          (correct_issues nstr sc (detect_issues nstr df)))))
                          then MaximumReached else AllResolved])"
            using lt nc ne True by (simp add: main_loop.simps [of nstr sc sv iteration df tr])
          moreover have "stop_ok nstr (main_loop nstr sc sv (Suc iteration)
                   (detect_issues nstr
                      (fst (enrich_data nstr sv (correct_issues nstr sc (detect_issues nstr df)))))
                   (tr @ [Detection, Correction,
                          Enrichment (snd (enrich_data nstr sv
                                             (correct_issues nstr sc (detect_issues nstr df)))),
                          Detection,
                          if any_issue nstr
                               (detect_issues nstr
                                  (fst (enrich_data nstr sv
                                          (correct_issues nstr sc (detect_issues nstr df)))))
                          then MaximumReached else AllResolved]))"
            using "1.prems" by (intro "1.IH"(1) [OF lt nc ne True]) simp_all
          ultimately show ?thesis by simp
        next
          case False
          have "main_loop nstr sc sv iteration df tr =
                 main_loop nstr sc sv (Suc iteration)
                   (fst (enrich_data nstr sv (correct_issues nstr sc (detect_issues nstr df))))
                   (tr @ [Detection, Correction,
                          Enrichment (snd (enrich_data nstr sv
                                             (correct_issues nstr sc (detect_issues nstr df))))])"
            using lt nc ne False by (simp add: main_loop.simps [of nstr sc sv iteration df tr])
          moreover have "stop_ok nstr (main_loop nstr sc sv (Suc iteration)
                   (fst (enrich_data nstr sv (correct_issues nstr sc (detect_issues nstr df))))
                   (tr @ [Detection, Correction,
                          Enrichment (snd (enrich_data nstr sv
                                             (correct_issues nstr sc (detect_issues nstr df))))]))"
            using "1.prems" by (intro "1.IH"(2) [OF lt nc ne False]) simp_all
          ultimately show ?thesis by simp
        qed
      qed
    qed
  qed
qed

lemma any_issue_iff:
  "any_issue nstr df \<longleftrightarrow> (\<exists>v \<in> set (column ''issues'' df). strip (py_str nstr v) \<noteq> [])"
  by (simp add: any_issue_def list_ex_iff)

text \<open>
  C3, as the code has it. When the run stops because correction alone sufficed, the frame
  that is written has no issues column. When it stops because detection found no issue, the
  frame still has the issues column that detection added, and every cell of it is blank.
\<close>

theorem issues_column_at_stop:
  fixes nstr sc sv df
  defines "out \<equiv> fst (main nstr sc sv df)" and "tr \<equiv> snd (main nstr sc sv df)"
  shows "(NoEnrichmentNeeded \<in> set tr \<longrightarrow> ''issues'' \<notin> set (columns out)) \<and>
         (NoCorrectionNeeded \<in> set tr \<longrightarrow>
            ''issues'' \<in> set (columns out) \<and>
            (\<forall>v \<in> set (column ''issues'' out). strip (py_str nstr v) = []))"
proof -
  have "stop_ok nstr (main nstr sc sv df)"
    unfolding main_def by (rule stop_ok_main_loop) simp_all
  then show ?thesis
    by (simp add: stop_ok_def out_def tr_def any_issue_iff)
qed

theorem issues_column_at_stop_witness:
  "NoCorrectionNeeded \<in> set (snd (main int_repr exact_ratio failing_service clean_frame)) \<and>
   ''issues'' \<in> set (columns (fst (main int_repr exact_ratio failing_service clean_frame))) \<and>
   NoEnrichmentNeeded \<in> set (snd (main int_repr exact_ratio failing_service twin_frame)) \<and>
   ''issues'' \<notin> set (columns (fst (main int_repr exact_ratio failing_service twin_frame)))"
proof -
  have a: "snd (main int_repr exact_ratio failing_service clean_frame)
             = [Detection, NoCorrectionNeeded]"
    by code_simp
  have b: "snd (main int_repr exact_ratio failing_service twin_frame)
             = [Detection, Correction, NoEnrichmentNeeded]"
    by code_simp
  from issues_column_at_stop [of int_repr exact_ratio failing_service clean_frame]
    issues_column_at_stop [of int_repr exact_ratio failing_service twin_frame] a b
  show ?thesis by simp
qed

text \<open>
  C3 as the claim has it fails: on a frame without any issue the first detection adds the
  issues column, the loop stops, and the frame is written with that column.
\<close>

theorem clean_run_counterexample:
  "main int_repr exact_ratio failing_service clean_frame =
     (\<lparr>columns = [''gender'', ''issues''], rows = [[Str ''Male'', Str []]]\<rparr>,
      [Detection, NoCorrectionNeeded]) \<and>
   ''issues'' \<in> set (columns (fst (main int_repr exact_ratio failing_service clean_frame)))"
  by code_simp

subsection \<open>Failures of the enrichment stage\<close>

text \<open>
  When the answer cannot be parsed the stage returns the frame it was given, with the issues
  column blanked if there is one, and logs the parse error.
\<close>

lemma clear_issues_absent: "''issues'' \<notin> set (columns df) \<Longrightarrow> clear_issues df = df"
  by (simp add: clear_issues_def apply_col_def)

lemma enrich_parse_failure:
  assumes "parse_response sv (cleaned_response sv df) = None"
  shows "enrich_data nstr sv df = (clear_issues df, [ParseError])"
  using assms by (simp add: enrich_data_def)

lemma cleaned_unknown: "strip (sub_fences True ''Unknown'') = ''Unknown''"
  by code_simp

lemma splitlines_unknown: "splitlines ''Unknown'' = [''Unknown'']"
  by code_simp

text \<open>
  C1 when the call of the service raises: \<^verbatim>\<open>gemini_generate\<close> returns the text
  \<^verbatim>\<open>Unknown\<close>, which is a one-line table. With the reader of pandas, which reads a single
  header line as a frame with that column and no row, the parse succeeds: the stage returns
  that frame in place of the dataset and logs a success, not a failure.
\<close>

theorem enrich_transport_failure:
  assumes "generate sv (prompt sv df) = None"
    and "csv_fields sv ''Unknown'' = Some n"
    and "read_csv sv ''Unknown'' = Some enriched_df"
  shows "enrich_data nstr sv df = (clear_issues enriched_df, enrich_logs nstr df enriched_df) \<and>
         ParseError \<notin> set (enrich_logs nstr df enriched_df) \<and>
         EnrichedAll \<in> set (enrich_logs nstr df enriched_df)"
proof -
  from assms(1) have "gemini_generate sv (prompt sv df) = ''Unknown''"
    by (simp add: gemini_generate_def)
  then have "cleaned_response sv df = ''Unknown''"
    by (simp only: cleaned_response_def cleaned_unknown)
  with assms(2,3) have "parse_response sv (cleaned_response sv df) = Some enriched_df"
    by (simp add: parse_response_def splitlines_unknown)
  then have "enrich_data nstr sv df = (clear_issues enriched_df, enrich_logs nstr df enriched_df)"
    by (simp add: enrich_data_def)
  moreover have "ParseError \<notin> set (enrich_logs nstr df enriched_df)"
    by (auto simp: enrich_logs_def)
  moreover have "EnrichedAll \<in> set (enrich_logs nstr df enriched_df)"
    by (simp add: enrich_logs_def)
  ultimately show ?thesis by blast
qed

theorem enrich_transport_failure_witness:
  "generate failing_service (prompt failing_service contact_frame) = None \<and>
   csv_fields failing_service ''Unknown'' = Some 1 \<and>
   read_csv failing_service ''Unknown'' = Some \<lparr>columns = [''Unknown''], rows = []\<rparr> \<and>
   enrich_data int_repr failing_service contact_frame =
     (\<lparr>columns = [''Unknown''], rows = []\<rparr>, [ColumnAdded ''Unknown'' [], EnrichedAll]) \<and>
   fst (enrich_data int_repr failing_service contact_frame) \<noteq> contact_frame"
proof -
  have g: "generate failing_service (prompt failing_service contact_frame) = None"
    by (simp add: failing_service_def)
  have f: "csv_fields failing_service ''Unknown'' = Some 1"
    by code_simp
  have r: "read_csv failing_service ''Unknown'' = Some \<lparr>columns = [''Unknown''], rows = []\<rparr>"
    by code_simp
  have c: "clear_issues \<lparr>columns = [''Unknown''], rows = []\<rparr> = \<lparr>columns = [''Unknown''], rows = []\<rparr>"
    by code_simp
  have l: "enrich_logs int_repr contact_frame \<lparr>columns = [''Unknown''], rows = []\<rparr>
             = [ColumnAdded ''Unknown'' [], EnrichedAll]"
    by code_simp
  have d: "\<lparr>columns = [''Unknown''], rows = []\<rparr> \<noteq> contact_frame"
    by (simp add: contact_frame_def)
  from enrich_transport_failure [OF g f r, of int_repr] g f r c l d show ?thesis by simp
qed

end
